theory Spec2Isabelle
  imports Complex_Main "HOL-Library.Word"
begin

section \<open>The quality gate (static/mobile_ui/quality-gate.js)\<close>

text \<open>
  The class \<open>QualityGate\<close> keeps the three quality signals, the time since which
  all three are green and a state name.  Times are the integer milliseconds that
  \<open>Date.now()\<close> returns; every method that reads the clock takes the reading as
  an argument.  The overlay is a DOM element: the model keeps whether it exists and
  whether it is displayed.  The callback \<open>onQualityChange\<close> is modelled by a flag
  (is one registered) and the list of arguments it has been called with.
\<close>

datatype gate_state = CAMERA_READY | LIVE_QUALITY_CHECKS | ALL_GREEN

record qualityStates =
  lighting :: bool
  pose :: bool
  distance :: bool

record QualityGate =
  state :: gate_state
  REQUIRED_GREEN_DURATION :: int
  allGreenSince :: "int option"
  faceMeshError :: bool
  qualityStates :: qualityStates
  badgesVisible :: bool
  overlay :: bool
  onQualityChange :: bool
  notified :: "bool list"

definition QualityGate_new :: QualityGate where
  "QualityGate_new =
     \<lparr> state = CAMERA_READY,
       REQUIRED_GREEN_DURATION = 500,
       allGreenSince = None,
       faceMeshError = False,
       qualityStates = \<lparr> lighting = False, pose = False, distance = False \<rparr>,
       badgesVisible = False,
       overlay = False,
       onQualityChange = False,
       notified = [] \<rparr>"

definition createUIOverlay :: "QualityGate \<Rightarrow> QualityGate" where
  "createUIOverlay g = (if overlay g then g else g\<lparr> overlay := True \<rparr>)"

definition showBadges :: "QualityGate \<Rightarrow> QualityGate" where
  "showBadges g =
     (let g1 = (if \<not> overlay g then createUIOverlay g else g)
      in if \<not> overlay g1 then g1 else g1\<lparr> badgesVisible := True \<rparr>)"

definition hideBadges :: "QualityGate \<Rightarrow> QualityGate" where
  "hideBadges g = (if \<not> overlay g then g else g\<lparr> badgesVisible := False \<rparr>)"

definition call_onQualityChange :: "bool \<Rightarrow> QualityGate \<Rightarrow> QualityGate" where
  "call_onQualityChange b g =
     (if onQualityChange g then g\<lparr> notified := notified g @ [b] \<rparr> else g)"

definition updateAllGreenState :: "int \<Rightarrow> QualityGate \<Rightarrow> QualityGate" where
  "updateAllGreenState now g =
     (let allGreen = (lighting (qualityStates g) \<and> pose (qualityStates g)
                       \<and> distance (qualityStates g))
      in if allGreen then
           (case allGreenSince g of
              None \<Rightarrow> g\<lparr> allGreenSince := Some now \<rparr>
            | Some since \<Rightarrow>
                (let duration = now - since
                 in if duration \<ge> REQUIRED_GREEN_DURATION g then
                      (if state g \<noteq> ALL_GREEN
                       then call_onQualityChange True (hideBadges (g\<lparr> state := ALL_GREEN \<rparr>))
                       else g)
                    else g))
         else
           (case allGreenSince g of
              None \<Rightarrow> g
            | Some since \<Rightarrow>
                (let g1 = g\<lparr> allGreenSince := None \<rparr>
                 in if state g1 = ALL_GREEN
                    then call_onQualityChange False
                           (showBadges (g1\<lparr> state := LIVE_QUALITY_CHECKS \<rparr>))
                    else g1)))"

definition isAnalysisAllowed :: "QualityGate \<Rightarrow> bool" where
  "isAnalysisAllowed g = (state g = ALL_GREEN)"




subsection \<open>Feeding timed signal updates to the gate\<close>

text \<open>
  The file holds no caller of \<open>updateAllGreenState\<close>.  A sample point is a clock
  reading together with the three signals measured then: the signals are written
  to \<open>qualityStates\<close> and \<open>updateAllGreenState\<close> is called.  \<open>feed\<close> does so
  for a sequence of samples, \<open>reports\<close> collects what \<open>isAnalysisAllowed\<close> answers
  after each of them.
\<close>

record sample =
  stamp :: int
  signals :: qualityStates

definition all_green :: "qualityStates \<Rightarrow> bool" where
  "all_green q = (lighting q \<and> pose q \<and> distance q)"

definition take_sample :: "sample \<Rightarrow> QualityGate \<Rightarrow> QualityGate" where
  "take_sample s g = updateAllGreenState (stamp s) (g\<lparr> qualityStates := signals s \<rparr>)"

fun feed :: "sample list \<Rightarrow> QualityGate \<Rightarrow> QualityGate" where
  "feed [] g = g"
| "feed (s # ss) g = feed ss (take_sample s g)"

fun reports :: "sample list \<Rightarrow> QualityGate \<Rightarrow> bool list" where
  "reports [] g = []"
| "reports (s # ss) g =
     isAnalysisAllowed (take_sample s g) # reports ss (take_sample s g)"

text \<open>
  What the specification calls "all three signals continuously true for at least
  the threshold up to this point": the samples at the end of the sequence that are
  all green form a run, and the run's first sample lies at least the threshold
  before the last sample.
\<close>

definition green_run :: "sample list \<Rightarrow> sample list" where
  "green_run ss = rev (takeWhile (\<lambda>s. all_green (signals s)) (rev ss))"

definition continuously_green_for :: "int \<Rightarrow> sample list \<Rightarrow> bool" where
  "continuously_green_for T ss =
     (case green_run ss of [] \<Rightarrow> False | s # r \<Rightarrow> T \<le> stamp (last ss) - stamp s)"

definition all_signals :: "bool \<Rightarrow> qualityStates" where
  "all_signals b = \<lparr> lighting = b, pose = b, distance = b \<rparr>"

definition scenario :: "sample list" where
  "scenario =
     [\<lparr> stamp = - 100, signals = all_signals False \<rparr>,
      \<lparr> stamp = 0, signals = all_signals True \<rparr>,
      \<lparr> stamp = 400, signals = all_signals True \<rparr>,
      \<lparr> stamp = 600, signals = all_signals True \<rparr>]"

text \<open>The invariant that links the gate to the samples it has seen.\<close>

definition gate_tracks :: "int \<Rightarrow> sample list \<Rightarrow> QualityGate \<Rightarrow> bool" where
  "gate_tracks T ss g =
     (case green_run ss of
        [] \<Rightarrow> allGreenSince g = None \<and> state g \<noteq> ALL_GREEN
      | s # r \<Rightarrow> allGreenSince g = Some (stamp s) \<and>
                 (state g = ALL_GREEN \<longleftrightarrow> T \<le> stamp (last ss) - stamp s))"

subsection \<open>The three assessments\<close>








text \<open>
  Landmarks are points in normalised frame coordinates; \<open>None\<close> stands for a
  missing landmark set (\<open>null\<close> or \<open>undefined\<close>).  In the loop of \<open>checkDistance\<close>
  the bounds start at plus and minus infinity; \<open>None\<close> is that starting value.
\<close>

record landmark =
  lm_x :: real
  lm_y :: real

definition checkPose :: "landmark list option \<Rightarrow> bool" where
  "checkPose faceLandmarks =
     (case faceLandmarks of
        None \<Rightarrow> False
      | Some ps \<Rightarrow> if length ps = 0 then False else True)"

definition lower :: "real option \<Rightarrow> real \<Rightarrow> real option" where
  "lower m v = (case m of None \<Rightarrow> Some v | Some w \<Rightarrow> Some (min w v))"

definition upper :: "real option \<Rightarrow> real \<Rightarrow> real option" where
  "upper m v = (case m of None \<Rightarrow> Some v | Some w \<Rightarrow> Some (max w v))"

fun bounding_box ::
  "landmark list \<Rightarrow> real option \<times> real option \<times> real option \<times> real option
   \<Rightarrow> real option \<times> real option \<times> real option \<times> real option" where
  "bounding_box [] box = box"
| "bounding_box (p # ps) (minX, maxX, minY, maxY) =
     bounding_box ps (lower minX (lm_x p), upper maxX (lm_x p),
                      lower minY (lm_y p), upper maxY (lm_y p))"

definition checkDistance :: "landmark list option \<Rightarrow> bool" where
  "checkDistance faceLandmarks =
     (case faceLandmarks of
        None \<Rightarrow> False
      | Some ps \<Rightarrow>
          if length ps = 0 then False
          else (case bounding_box ps (None, None, None, None) of
                  (Some minX, Some maxX, Some minY, Some maxY) \<Rightarrow>
                    (let width = maxX - minX; height = maxY - minY
                     in width > 0.25 \<and> height > 0.25 \<and> width < 0.9 \<and> height < 0.9)
                | _ \<Rightarrow> False))"






section \<open>The analysis client (static/mobile_ui/skin-core.js)\<close>

text \<open>
  A JavaScript string is a sequence of UTF-16 code units.  \<open>trim\<close> removes the
  white space and line terminators of ECMAScript from both ends.  Values of other
  types matter only through \<open>typeof\<close>.
\<close>

type_synonym js_string = "16 word list"

definition js :: "string \<Rightarrow> js_string" where
  "js cs = map (\<lambda>c. word_of_nat (of_char c)) cs"

datatype js_value =
  JSUndefined | JSNull | JSBoolean bool | JSNumber int | JSString js_string | JSObject

definition is_js_whitespace :: "16 word \<Rightarrow> bool" where
  "is_js_whitespace c =
     (c \<in> {0x09, 0x0A, 0x0B, 0x0C, 0x0D, 0x20, 0xA0, 0x1680, 0x2028, 0x2029,
            0x202F, 0x205F, 0x3000, 0xFEFF}
      \<or> (0x2000 \<le> c \<and> c \<le> 0x200A))"

definition js_trim :: "js_string \<Rightarrow> js_string" where
  "js_trim s = rev (dropWhile is_js_whitespace (rev (dropWhile is_js_whitespace s)))"

fun js_indexOf :: "16 word \<Rightarrow> js_string \<Rightarrow> int" where
  "js_indexOf c [] = - 1"
| "js_indexOf c (x # xs) =
     (if x = c then 0
      else (let i = js_indexOf c xs in if i < 0 then - 1 else i + 1))"

definition COMMA :: "16 word" where
  "COMMA = 0x2C"

definition stripDataUrlPrefix :: "js_value \<Rightarrow> js_string option" where
  "stripDataUrlPrefix dataUrl =
     (case dataUrl of
        JSString s \<Rightarrow>
          (let comma = js_indexOf COMMA s
           in Some (if comma \<ge> 0 then drop (nat (comma + 1)) s else s))
      | _ \<Rightarrow> None)"

text \<open>
  Errors are values.  \<open>Error m\<close> is an \<open>Error\<close> object with message \<open>m\<close>.
  \<open>HttpError m status\<close> is the error \<open>fetchJson\<close> builds for a response that is not
  ok: its message is \<open>m\<close> when the body names one and the text \<open>HTTP\<close> followed by
  the status otherwise.  \<open>FetchFailed\<close> is the rejection of \<open>fetch\<close> itself.
\<close>

datatype js_error =
  Error js_string | HttpError "js_string option" nat | FetchFailed

definition assertString :: "string \<Rightarrow> js_value \<Rightarrow> js_error + unit" where
  "assertString name v =
     (case v of
        JSString s \<Rightarrow>
          if js_trim s = [] then Inl (Error (js (''BLOCKED: missing '' @ name)))
          else Inr ()
      | _ \<Rightarrow> Inl (Error (js (''BLOCKED: missing '' @ name))))"

record request =
  url :: string
  image_base64 :: "js_string option"

record http_response =
  ok :: bool
  status :: nat
  body_text :: js_string

text \<open>
  A parsed body: \<open>null\<close>, or a value whose fields \<open>success\<close>, \<open>error\<close>, \<open>message\<close> and
  \<open>metrics\<close> are read.  The parser \<open>JSON.parse\<close> is a parameter; \<open>None\<close> is its
  SyntaxError.  The server is a parameter as well: it answers a request, or the
  request fails (\<open>None\<close>).
\<close>

datatype 'm json_value =
  JSON_null
| JSON_object (success_true: bool) (error_field: "js_string option")
    (message_field: "js_string option") (metrics_field: "'m option")

definition truthy :: "js_string option \<Rightarrow> js_string option" where
  "truthy f = (case f of None \<Rightarrow> None | Some m \<Rightarrow> if m = [] then None else Some m)"

definition error_or_message :: "'m json_value \<Rightarrow> js_string option" where
  "error_or_message j =
     (case j of
        JSON_null \<Rightarrow> None
      | JSON_object _ e m _ \<Rightarrow> (case truthy e of Some t \<Rightarrow> Some t | None \<Rightarrow> truthy m))"

definition fetchJson ::
  "(js_string \<Rightarrow> 'm json_value option) \<Rightarrow> http_response option \<Rightarrow> js_error + 'm json_value" where
  "fetchJson parse answer =
     (case answer of
        None \<Rightarrow> Inl FetchFailed
      | Some res \<Rightarrow>
          (case (if body_text res = [] then Some JSON_null else parse (body_text res)) of
             None \<Rightarrow>
               Inl (Error (js ''YouCam proxy returned non-JSON: '' @ take 200 (body_text res)))
           | Some json \<Rightarrow>
               if \<not> ok res then Inl (HttpError (error_or_message json) (status res))
               else Inr json))"

definition analyzeYouCamByBase64 ::
  "(js_string \<Rightarrow> 'm json_value option) \<Rightarrow> (request \<Rightarrow> http_response option) \<Rightarrow> js_value
   \<Rightarrow> request list \<times> (js_error + 'm option)" where
  "analyzeYouCamByBase64 parse server imageBase64 =
     (case assertString ''image_base64'' imageBase64 of
        Inl e \<Rightarrow> ([], Inl e)
      | Inr _ \<Rightarrow>
          (let base64 = stripDataUrlPrefix imageBase64;
               req = \<lparr> url = ''/youcam/analyze'', image_base64 = base64 \<rparr>
           in ([req],
               (case fetchJson parse (server req) of
                  Inl e \<Rightarrow> Inl e
                | Inr data \<Rightarrow>
                    (case data of
                       JSON_null \<Rightarrow> Inl (Error (js ''YouCam analyze failed''))
                     | JSON_object success _ _ metrics \<Rightarrow>
                         if \<not> success then
                           Inl (Error (case error_or_message data of
                                         Some m \<Rightarrow> m
                                       | None \<Rightarrow> js ''YouCam analyze failed''))
                         else Inr metrics)))))"


section \<open>The application script (app.js, rewritten version)\<close>

text \<open>
  The script runs on the single thread of the browser: a function body runs
  without interruption up to its next \<open>await\<close>, and resumes when the awaited
  promise settles.  The model is a transition system.  Its state holds the
  variables of the script, the audio elements the script has created, the
  suspended invocations of the interval callback (each at its \<open>await\<close>) and the
  list of the calls made to the outside (\<open>effects\<close>).  An event is a call of one
  of the script's functions or the browser running one of its callbacks.
\<close>

subsection \<open>State\<close>

text \<open>
  An audio element, as far as the script can tell: \<open>Starting\<close> after \<open>play()\<close> while
  its promise is pending, \<open>Playing\<close> once the promise is fulfilled, \<open>Aborted\<close> when
  \<open>pause()\<close> came while the promise was pending (the browser then rejects the
  promise with an AbortError), \<open>Paused\<close>, \<open>Finished\<close> and \<open>Failed\<close> otherwise.
  A playback is active while the element is \<open>Starting\<close> or \<open>Playing\<close>.
\<close>

datatype playback = Starting | Playing | Paused | Aborted | Finished | Failed

record audio =
  src :: js_string
  playback :: playback

text \<open>
  The field \<open>audio_url\<close> of a response: missing, a string, or another value that is
  truthy (on which \<open>startsWith\<close> is not a function).  \<open>recommendations\<close> is the length
  of the array when there is one.
\<close>

datatype audio_ref = NoAudio | AudioUrl js_string | AudioOther

record response_data =
  skin_report :: bool
  recommendations :: "nat option"
  audio_url :: audio_ref

text \<open>What the page provides, and which of the calls into it throw.\<close>

record host =
  cam :: bool
  camReady :: bool
  faceDetectionReady :: bool
  faceDetectionManager :: bool
  productManager :: bool
  render_throws :: bool
  products_throw :: bool
  origin :: js_string

datatype callback = Returns | Throws

record live_options =
  interval :: nat
  throttle :: bool
  generateAudio :: bool
  onResult :: "callback option"

definition default_options :: live_options where
  "default_options =
     \<lparr> interval = 2000, throttle = True, generateAudio = False, onResult = None \<rparr>"

datatype await_point =
  AwaitValidation | AwaitDetect | AwaitFetch | AwaitErrorBody | AwaitBody

text \<open>
  How an awaited promise settles. \<open>Rejected\<close>: with an exception.  \<open>Validation v\<close>:
  \<open>validateForAnalysis\<close> answers with \<open>valid = v\<close>.  \<open>Face f c\<close>: \<open>detectFace\<close> answers,
  \<open>f\<close> says that a face with a bounding box was found and \<open>c\<close> that cropping and
  encoding it then succeed.  \<open>Response k\<close>: \<open>fetch\<close> answers with \<open>response.ok = k\<close>.
  \<open>ErrorBody\<close> and \<open>Body d\<close>: \<open>response.json()\<close> answers.
\<close>

datatype settlement =
  Rejected | Validation bool | Face bool bool | Response bool | ErrorBody | Body response_data

datatype effect =
  ShowValidationMessage | HideValidationMessage | Alert
| ValidateForAnalysis | DetectFace | CropFaceROI
| Fetch nat | ReadErrorBody | ReadBody
| RenderSkinAnalysis | HandleSkinAnalysis | AddProducts | PlayElevenLabsAudio | OnResult
| SetInterval | ClearInterval | SkinAnalyze

record app =
  analyzingNow :: bool
  voiceAllowed :: bool
  currentAudio :: "nat option"
  analysisTriggered :: bool
  liveAnalysisActive :: bool
  liveAnalysisInterval :: bool
  frameCounter :: nat
  lastAnalysisResult :: "response_data option"
  frameInFlight :: bool
  options :: live_options
  host :: host
  audios :: "audio list"
  pending :: "await_point list"
  effects :: "effect list"

definition emit :: "effect \<Rightarrow> app \<Rightarrow> app" where
  "emit e a = a\<lparr> effects := effects a @ [e] \<rparr>"

definition page :: host where
  "page = \<lparr> cam = True, camReady = True, faceDetectionReady = True,
            faceDetectionManager = True, productManager = True,
            render_throws = False, products_throw = False, origin = [] \<rparr>"

definition loaded :: "host \<Rightarrow> app" where
  "loaded h =
     \<lparr> analyzingNow = False, voiceAllowed = True, currentAudio = None,
       analysisTriggered = False, liveAnalysisActive = False,
       liveAnalysisInterval = False, frameCounter = 0, lastAnalysisResult = None,
       frameInFlight = False, options = default_options, host = h,
       audios = [], pending = [], effects = [] \<rparr>"

subsection \<open>Audio\<close>

text \<open>
  \<open>pause()\<close> on an element, and \<open>stopCurrentAudio\<close>, which also resets the
  position of the element (not modelled) and swallows exceptions (none arise
  here).
\<close>

definition pause :: "nat \<Rightarrow> app \<Rightarrow> app" where
  "pause i a =
     (if i < length (audios a) then
        (let x = audios a ! i;
             p = (case playback x of
                    Starting \<Rightarrow> Aborted
                  | Playing \<Rightarrow> Paused
                  | other \<Rightarrow> other)
         in a\<lparr> audios := (audios a)[i := x\<lparr> playback := p \<rparr>] \<rparr>)
      else a)"

definition stopCurrentAudio :: "app \<Rightarrow> app" where
  "stopCurrentAudio a =
     (case currentAudio a of
        None \<Rightarrow> a
      | Some i \<Rightarrow> (pause i a)\<lparr> currentAudio := None \<rparr>)"

text \<open>The three handlers that \<open>playVoice\<close> installs have the same body.\<close>

definition release :: "app \<Rightarrow> app" where
  "release a = a\<lparr> analyzingNow := False, currentAudio := None \<rparr>"

definition playVoice :: "js_string \<Rightarrow> app \<Rightarrow> app" where
  "playVoice u a =
     (if \<not> voiceAllowed a then a\<lparr> analyzingNow := False \<rparr>
      else
        (let a1 = stopCurrentAudio a;
             i = length (audios a1)
         in a1\<lparr> audios := audios a1 @ [\<lparr> src = u, playback = Starting \<rparr>],
                 currentAudio := Some i \<rparr>))"

definition fullUrl :: "js_string \<Rightarrow> js_string \<Rightarrow> js_string" where
  "fullUrl org u = (if take 4 u = js ''http'' then u else org @ u)"

text \<open>
  \<open>playElevenLabsAudio\<close> throws a TypeError when it is allowed to play and its
  argument is not a string: \<open>Inl\<close> holds the state at the throw.
\<close>

definition playElevenLabsAudio :: "audio_ref \<Rightarrow> app \<Rightarrow> app + app" where
  "playElevenLabsAudio r a =
     (if \<not> voiceAllowed a then Inr (a\<lparr> analyzingNow := False \<rparr>)
      else (case r of
              AudioUrl u \<Rightarrow> Inr (playVoice (fullUrl (origin (host a)) u) a)
            | _ \<Rightarrow> Inl a))"

definition is_truthy :: "audio_ref \<Rightarrow> bool" where
  "is_truthy r = (case r of NoAudio \<Rightarrow> False | AudioUrl u \<Rightarrow> u \<noteq> [] | AudioOther \<Rightarrow> True)"

text \<open>
  What the browser does to an audio element, followed by the handler that
  \<open>playVoice\<close> installed for it: the promise of \<open>play()\<close> is fulfilled (no
  handler), or rejected (for an element that is starting, or that was paused
  while starting), the playback ends, or a media error occurs.  An event that
  does not fit the state of the element does not occur; the model leaves the
  state as it is.
\<close>

definition play_started :: "nat \<Rightarrow> app \<Rightarrow> app" where
  "play_started i a =
     (if i < length (audios a) \<and> playback (audios a ! i) = Starting
      then a\<lparr> audios := (audios a)[i := (audios a ! i)\<lparr> playback := Playing \<rparr>] \<rparr>
      else a)"

definition play_rejected :: "nat \<Rightarrow> app \<Rightarrow> app" where
  "play_rejected i a =
     (if i < length (audios a) \<and> playback (audios a ! i) = Starting
      then release (a\<lparr> audios := (audios a)[i := (audios a ! i)\<lparr> playback := Failed \<rparr>] \<rparr>)
      else if i < length (audios a) \<and> playback (audios a ! i) = Aborted
      then release (a\<lparr> audios := (audios a)[i := (audios a ! i)\<lparr> playback := Paused \<rparr>] \<rparr>)
      else a)"

definition ended :: "nat \<Rightarrow> app \<Rightarrow> app" where
  "ended i a =
     (if i < length (audios a) \<and> playback (audios a ! i) = Playing
      then release (a\<lparr> audios := (audios a)[i := (audios a ! i)\<lparr> playback := Finished \<rparr>] \<rparr>)
      else a)"

definition media_error :: "nat \<Rightarrow> app \<Rightarrow> app" where
  "media_error i a =
     (if i < length (audios a) \<and> playback (audios a ! i) \<in> {Starting, Playing}
      then release (a\<lparr> audios := (audios a)[i := (audios a ! i)\<lparr> playback := Failed \<rparr>] \<rparr>)
      else a)"

definition is_active :: "audio \<Rightarrow> bool" where
  "is_active x = (playback x = Starting \<or> playback x = Playing)"

definition active_playbacks :: "app \<Rightarrow> nat" where
  "active_playbacks a = length (filter is_active (audios a))"


subsection \<open>The live-analysis loop\<close>

text \<open>
  \<open>frameInFlight\<close> is a variable of one call of \<open>startLiveAnalysis\<close>, shared by the
  invocations of that call's interval callback.  The model follows the loop that
  one call starts.
\<close>

definition startLiveAnalysis :: "live_options \<Rightarrow> app \<Rightarrow> app" where
  "startLiveAnalysis opts a =
     (if liveAnalysisActive a then a\<lparr> analyzingNow := False \<rparr>
      else if \<not> cam (host a) then
        (emit ShowValidationMessage a)\<lparr> liveAnalysisActive := False, analyzingNow := False \<rparr>
      else if \<not> faceDetectionManager (host a) then
        (emit ShowValidationMessage a)\<lparr> liveAnalysisActive := False, analyzingNow := False \<rparr>
      else
        (emit SetInterval a)\<lparr> liveAnalysisActive := True, frameCounter := 0,
                                frameInFlight := False, options := opts,
                                liveAnalysisInterval := True \<rparr>)"

definition stopLiveAnalysis :: "app \<Rightarrow> app" where
  "stopLiveAnalysis a =
     (if \<not> liveAnalysisActive a then a\<lparr> analyzingNow := False \<rparr>
      else
        (let a1 = a\<lparr> liveAnalysisActive := False \<rparr>;
             a2 = (if liveAnalysisInterval a1
                   then (emit ClearInterval a1)\<lparr> liveAnalysisInterval := False \<rparr>
                   else a1)
         in a2\<lparr> analyzingNow := False \<rparr>))"

text \<open>The \<open>finally\<close> block of the interval callback.\<close>

definition cleanup :: "app \<Rightarrow> app" where
  "cleanup a = a\<lparr> frameInFlight := False, analyzingNow := False \<rparr>"

text \<open>
  The interval callback up to its first \<open>await\<close>; \<open>None\<close> when it returns at
  once.
\<close>

definition tick :: "app \<Rightarrow> await_point option \<times> app" where
  "tick a =
     (if \<not> liveAnalysisActive a then (None, a)
      else if frameInFlight a then (None, a)
      else (Some AwaitValidation,
            emit ValidateForAnalysis (a\<lparr> frameInFlight := True, analyzingNow := True \<rparr>)))"

definition call_onResult :: "app \<Rightarrow> app" where
  "call_onResult a =
     (case onResult (options a) of None \<Rightarrow> a | Some c \<Rightarrow> emit OnResult a)"

text \<open>
  The part of the callback after the body of an ok response has arrived, up to the
  end of the \<open>try\<close> block.  An exception inside \<open>renderSkinAnalysis\<close>, the product
  update or \<open>onResult\<close> is caught on the spot; one inside \<open>playElevenLabsAudio\<close> leaves
  the \<open>try\<close> block.
\<close>

definition deliver :: "response_data \<Rightarrow> app \<Rightarrow> app" where
  "deliver d a =
     (let a1 = a\<lparr> lastAnalysisResult := Some d \<rparr>;
          a2 = (if render_throws (host a1) then a1 else emit RenderSkinAnalysis a1);
          a3 = (if recommendations d \<noteq> None \<and> productManager (host a2)
                then (if products_throw (host a2) then a2 else emit AddProducts a2)
                else a2)
      in if generateAudio (options a3) \<and> is_truthy (audio_url d) then
           (case playElevenLabsAudio (audio_url d) a3 of
              Inl a4 \<Rightarrow> a4
            | Inr a4 \<Rightarrow> call_onResult a4)
         else call_onResult a3)"

text \<open>
  The callback resumed at an \<open>await\<close>: the next \<open>await\<close>, or \<open>None\<close> when the
  callback has run to its end, through \<open>finally\<close>.  A settlement of the wrong kind
  for the \<open>await\<close> cannot occur; the state is left as it is.
\<close>

fun resume :: "await_point \<Rightarrow> settlement \<Rightarrow> app \<Rightarrow> await_point option \<times> app" where
  "resume AwaitValidation (Validation valid) a =
     (if \<not> valid then (None, cleanup (emit ShowValidationMessage a))
      else (Some AwaitDetect, emit DetectFace (emit HideValidationMessage a)))"
| "resume AwaitDetect (Face found cropped) a =
     (if \<not> found then (None, cleanup a)
      else if \<not> cropped then (None, cleanup (emit CropFaceROI a))
      else (let a1 = (emit CropFaceROI a)\<lparr> frameCounter := frameCounter a + 1 \<rparr>
            in (Some AwaitFetch, emit (Fetch (frameCounter a1)) a1)))"
| "resume AwaitFetch (Response k) a =
     (if \<not> k then (Some AwaitErrorBody, emit ReadErrorBody a)
      else (Some AwaitBody, emit ReadBody a))"
| "resume AwaitErrorBody ErrorBody a = (None, cleanup a)"
| "resume AwaitErrorBody Rejected a = (None, cleanup a)"
| "resume AwaitBody (Body d) a = (None, cleanup (deliver d a))"
| "resume AwaitValidation Rejected a = (None, cleanup a)"
| "resume AwaitDetect Rejected a = (None, cleanup a)"
| "resume AwaitFetch Rejected a = (None, cleanup a)"
| "resume AwaitBody Rejected a = (None, cleanup a)"
| "resume p s a = (Some p, a)"

subsection \<open>Events\<close>

datatype event =
  Tick | Settle nat settlement | StopLiveAnalysis
| PlayVoice js_string | PlayStarted nat | PlayRejected nat | Ended nat | MediaError nat

definition settle ::
  "(await_point \<Rightarrow> settlement \<Rightarrow> app \<Rightarrow> await_point option \<times> app)
   \<Rightarrow> nat \<Rightarrow> settlement \<Rightarrow> app \<Rightarrow> app" where
  "settle r i s a =
     (if i < length (pending a) then
        (case r (pending a ! i) s a of
           (Some p, a1) \<Rightarrow> a1\<lparr> pending := (pending a)[i := p] \<rparr>
         | (None, a1) \<Rightarrow> a1\<lparr> pending := take i (pending a) @ drop (Suc i) (pending a) \<rparr>)
      else a)"

definition suspend :: "await_point option \<times> app \<Rightarrow> app" where
  "suspend r = (case r of (None, a) \<Rightarrow> a | (Some p, a) \<Rightarrow> a\<lparr> pending := pending a @ [p] \<rparr>)"

fun step :: "event \<Rightarrow> app \<Rightarrow> app" where
  "step Tick a = suspend (tick a)"
| "step (Settle i s) a = settle resume i s a"
| "step StopLiveAnalysis a = stopLiveAnalysis a"
| "step (PlayVoice u) a = playVoice u a"
| "step (PlayStarted i) a = play_started i a"
| "step (PlayRejected i) a = play_rejected i a"
| "step (Ended i) a = ended i a"
| "step (MediaError i) a = media_error i a"

fun run :: "event list \<Rightarrow> app \<Rightarrow> app" where
  "run [] a = a"
| "run (e # es) a = run es (step e a)"

text \<open>
  A submission is outstanding from the call of \<open>fetch\<close> until the callback has
  dealt with the response.
\<close>

definition submitted :: "await_point \<Rightarrow> bool" where
  "submitted p = (p = AwaitFetch \<or> p = AwaitErrorBody \<or> p = AwaitBody)"

definition outstanding :: "app \<Rightarrow> nat" where
  "outstanding a = length (filter submitted (pending a))"

text \<open>The outcomes of a submission, as sequences of settlements.\<close>

datatype outcome = Success response_data | HttpFailure bool | NetworkException | MalformedBody

fun settlements :: "outcome \<Rightarrow> settlement list" where
  "settlements (Success d) = [Response True, Body d]"
| "settlements (HttpFailure readable) = [Response False, if readable then ErrorBody else Rejected]"
| "settlements NetworkException = [Rejected]"
| "settlements MalformedBody = [Response True, Rejected]"


subsection \<open>The explicit analysis action\<close>






text \<open>
  \<open>performRealAnalysis\<close> with the outcome of its capture and its request.  It
  catches every exception and ends in its \<open>finally\<close> block.
\<close>

datatype analysis_outcome =
  CaptureFailed | RequestFailed | ServerError | UnreadableBody | Received response_data


section \<open>The application script (app.js, earlier version)\<close>

text \<open>
  The earlier version of the script has the same variables and the same interval
  callback, without the variable \<open>frameInFlight\<close> and without a \<open>finally\<close> block.
  Its audio functions are kept abstract: a call of \<open>playElevenLabsAudio\<close> that is
  allowed to play is an effect.
\<close>

definition legacy_startLiveAnalysis :: "live_options \<Rightarrow> app \<Rightarrow> app" where
  "legacy_startLiveAnalysis opts a =
     (if liveAnalysisActive a then a
      else if \<not> cam (host a) \<or> \<not> camReady (host a) then emit Alert a
      else
        (let a1 = a\<lparr> liveAnalysisActive := True, frameCounter := 0 \<rparr>
         in if \<not> faceDetectionReady (host a1) then
              (emit ShowValidationMessage a1)\<lparr> liveAnalysisActive := False \<rparr>
            else if \<not> faceDetectionManager (host a1) then
              (emit ShowValidationMessage a1)\<lparr> liveAnalysisActive := False \<rparr>
            else (emit SetInterval a1)\<lparr> options := opts, liveAnalysisInterval := True \<rparr>))"

definition legacy_tick :: "app \<Rightarrow> await_point option \<times> app" where
  "legacy_tick a =
     (if \<not> liveAnalysisActive a then (None, a)
      else (Some AwaitValidation, emit ValidateForAnalysis a))"

definition legacy_deliver :: "response_data \<Rightarrow> app \<Rightarrow> app" where
  "legacy_deliver d a =
     (let a1 = a\<lparr> lastAnalysisResult := Some d \<rparr>
      in if skin_report d then
           (let a2 = emit HandleSkinAnalysis a1;
                wanted = (case recommendations d of None \<Rightarrow> False | Some n \<Rightarrow> n > 0)
            in if wanted \<and> productManager (host a2) \<and> products_throw (host a2) then a2
               else
                 (let a3 = (if wanted \<and> productManager (host a2)
                            then emit AddProducts a2 else a2)
                  in if generateAudio (options a3) \<and> is_truthy (audio_url d) then
                       (if \<not> voiceAllowed a3 then call_onResult a3
                        else (case audio_url d of
                                AudioUrl u \<Rightarrow> call_onResult (emit PlayElevenLabsAudio a3)
                              | _ \<Rightarrow> a3))
                     else call_onResult a3))
         else call_onResult a1)"

fun legacy_resume :: "await_point \<Rightarrow> settlement \<Rightarrow> app \<Rightarrow> await_point option \<times> app" where
  "legacy_resume AwaitValidation (Validation valid) a =
     (if \<not> valid then (None, emit ShowValidationMessage a)
      else (Some AwaitDetect, emit DetectFace (emit HideValidationMessage a)))"
| "legacy_resume AwaitDetect (Face found cropped) a =
     (if \<not> found then (None, a)
      else if \<not> cropped then (None, emit CropFaceROI a)
      else (let a1 = (emit CropFaceROI a)\<lparr> frameCounter := frameCounter a + 1 \<rparr>
            in (Some AwaitFetch, emit (Fetch (frameCounter a1)) a1)))"
| "legacy_resume AwaitFetch (Response k) a =
     (if \<not> k then (Some AwaitErrorBody, emit ReadErrorBody a)
      else (Some AwaitBody, emit ReadBody a))"
| "legacy_resume AwaitErrorBody ErrorBody a = (None, a)"
| "legacy_resume AwaitErrorBody Rejected a = (None, a)"
| "legacy_resume AwaitBody (Body d) a = (None, legacy_deliver d a)"
| "legacy_resume AwaitValidation Rejected a = (None, a)"
| "legacy_resume AwaitDetect Rejected a = (None, a)"
| "legacy_resume AwaitFetch Rejected a = (None, a)"
| "legacy_resume AwaitBody Rejected a = (None, a)"
| "legacy_resume p s a = (Some p, a)"

definition legacy_stopLiveAnalysis :: "app \<Rightarrow> app" where
  "legacy_stopLiveAnalysis a =
     (if \<not> liveAnalysisActive a then a
      else
        (let a1 = a\<lparr> liveAnalysisActive := False \<rparr>;
             a2 = (if liveAnalysisInterval a1
                   then (emit ClearInterval a1)\<lparr> liveAnalysisInterval := False \<rparr>
                   else a1)
         in a2\<lparr> frameCounter := 0 \<rparr>))"

fun legacy_step :: "event \<Rightarrow> app \<Rightarrow> app" where
  "legacy_step Tick a = suspend (legacy_tick a)"
| "legacy_step (Settle i s) a = settle legacy_resume i s a"
| "legacy_step StopLiveAnalysis a = legacy_stopLiveAnalysis a"
| "legacy_step e a = a"

fun legacy_run :: "event list \<Rightarrow> app \<Rightarrow> app" where
  "legacy_run [] a = a"
| "legacy_run (e # es) a = legacy_run es (legacy_step e a)"

section \<open>Concrete inputs and invariants\<close>






text \<open>A data URL, and the server that is never reached.\<close>

definition data_url :: js_string where
  "data_url = js ''data:image/jpeg;base64,QUJD''"

definition no_parse :: "js_string \<Rightarrow> nat json_value option" where
  "no_parse t = None"

definition no_server :: "request \<Rightarrow> http_response option" where
  "no_server r = None"

text \<open>
  The invariant of the loop in the rewritten script: at most one invocation of the
  interval callback is suspended, and \<open>frameInFlight\<close> is true exactly while one
  is.
\<close>

definition one_in_flight :: "app \<Rightarrow> bool" where
  "one_in_flight a = (length (pending a) \<le> 1 \<and> (frameInFlight a \<longleftrightarrow> pending a \<noteq> []))"

text \<open>
  Two ticks, the second firing before the request of the first has been answered.
\<close>

definition overlapping_ticks :: "event list" where
  "overlapping_ticks =
     [Tick, Settle 0 (Validation True), Settle 0 (Face True True),
      Tick, Settle 1 (Validation True), Settle 1 (Face True True)]"



definition submit_one :: "event list" where
  "submit_one = [Tick, Settle 0 (Validation True), Settle 0 (Face True True)]"


text \<open>
  Three calls of \<open>playVoice\<close>: the second comes while the first audio is still
  starting, so that the pause rejects the promise of the first; the second audio
  starts to play; then comes the third call.
\<close>

definition three_voices :: "event list" where
  "three_voices =
     [PlayVoice (js ''a''), PlayVoice (js ''b''), PlayRejected 0, PlayStarted 1,
      PlayVoice (js ''c'')]"

text \<open>The rewritten loop with one submission in flight.\<close>

definition in_flight :: app where
  "in_flight = run submit_one (startLiveAnalysis default_options (loaded page))"







text \<open>
  The audio slot does its work while every active audio element is the one that
  \<open>currentAudio\<close> refers to.
\<close>

definition slot_tracks :: "app \<Rightarrow> bool" where
  "slot_tracks a =
     (\<forall>j<length (audios a). is_active (audios a ! j) \<longrightarrow> currentAudio a = Some j)"

section \<open>Properties of the quality gate\<close>

subsection \<open>Stability of the all-green state\<close>

lemma feed_snoc: "feed (ss @ [s]) g = take_sample s (feed ss g)"
  by (induction ss arbitrary: g) simp_all

lemma green_run_snoc:
  "green_run (ss @ [s]) = (if all_green (signals s) then green_run ss @ [s] else [])"
  by (simp add: green_run_def)

lemma take_sample_threshold [simp]:
  "REQUIRED_GREEN_DURATION (take_sample s g) = REQUIRED_GREEN_DURATION g"
  by (simp add: take_sample_def updateAllGreenState_def Let_def call_onQualityChange_def
      hideBadges_def showBadges_def createUIOverlay_def split: option.splits)

lemma feed_threshold [simp]:
  "REQUIRED_GREEN_DURATION (feed ss g) = REQUIRED_GREEN_DURATION g"
  by (induction ss arbitrary: g) simp_all

lemma take_sample_green_None:
  "all_green (signals s) \<Longrightarrow> allGreenSince g = None \<Longrightarrow>
   allGreenSince (take_sample s g) = Some (stamp s) \<and> state (take_sample s g) = state g"
  by (simp add: take_sample_def updateAllGreenState_def all_green_def)

lemma take_sample_green_Some:
  "all_green (signals s) \<Longrightarrow> allGreenSince g = Some t0 \<Longrightarrow>
   allGreenSince (take_sample s g) = Some t0 \<and>
   (state (take_sample s g) = ALL_GREEN \<longleftrightarrow>
      state g = ALL_GREEN \<or> REQUIRED_GREEN_DURATION g \<le> stamp s - t0)"
  by (simp add: take_sample_def updateAllGreenState_def all_green_def Let_def
      call_onQualityChange_def hideBadges_def)

lemma take_sample_not_green:
  "\<not> all_green (signals s) \<Longrightarrow>
   allGreenSince (take_sample s g) = None \<and>
   (state (take_sample s g) = ALL_GREEN \<longleftrightarrow> state g = ALL_GREEN \<and> allGreenSince g = None)"
  by (auto simp add: take_sample_def updateAllGreenState_def all_green_def Let_def
      call_onQualityChange_def showBadges_def createUIOverlay_def split: option.splits)


lemma gate_tracks_step:
  assumes T: "0 < T" and req: "REQUIRED_GREEN_DURATION g = T"
    and mono: "\<forall>x\<in>set ss. stamp x \<le> stamp s"
    and inv: "gate_tracks T ss g"
  shows "gate_tracks T (ss @ [s]) (take_sample s g)"
proof (cases "all_green (signals s)")
  case False
  have "allGreenSince g = None \<longrightarrow> state g \<noteq> ALL_GREEN"
    using inv by (auto simp: gate_tracks_def split: list.splits)
  with False show ?thesis
    using take_sample_not_green [OF False, of g]
    by (auto simp add: gate_tracks_def green_run_snoc)
next
  case green: True
  show ?thesis
  proof (cases "green_run ss")
    case Nil
    with inv have "allGreenSince g = None" "state g \<noteq> ALL_GREEN"
      by (simp_all add: gate_tracks_def)
    with green Nil T show ?thesis
      using take_sample_green_None [OF green, of g]
      by (simp add: gate_tracks_def green_run_snoc)
  next
    case (Cons s0 r)
    with inv have since: "allGreenSince g = Some (stamp s0)"
      and st: "state g = ALL_GREEN \<longleftrightarrow> T \<le> stamp (last ss) - stamp s0"
      by (simp_all add: gate_tracks_def)
    from Cons have "ss \<noteq> []" by (auto simp: green_run_def)
    then have "stamp (last ss) \<le> stamp s" using mono by simp
    with st have "state g = ALL_GREEN \<or> T \<le> stamp s - stamp s0 \<longleftrightarrow> T \<le> stamp s - stamp s0"
      by auto
    with green Cons since req show ?thesis
      using take_sample_green_Some [OF green since]
      by (simp add: gate_tracks_def green_run_snoc)
  qed
qed

lemma gate_tracks_feed:
  assumes T: "0 < T" and req: "REQUIRED_GREEN_DURATION g = T"
    and start: "allGreenSince g = None" "state g \<noteq> ALL_GREEN"
  shows "sorted (map stamp ss) \<Longrightarrow> gate_tracks T ss (feed ss g)"
proof (induction ss rule: rev_induct)
  case Nil
  with start show ?case by (simp add: gate_tracks_def green_run_def)
next
  case (snoc s ss)
  from snoc.prems have srt: "sorted (map stamp ss)" and le: "\<forall>x\<in>set ss. stamp x \<le> stamp s"
    by (auto simp: sorted_append)
  have "gate_tracks T (ss @ [s]) (take_sample s (feed ss g))"
    by (rule gate_tracks_step [OF T _ le snoc.IH [OF srt]]) (simp add: req)
  then show ?case by (simp add: feed_snoc)
qed

text \<open>
  From a new gate with threshold \<open>T\<close>, fed samples in the order of their clock
  readings, analysis is allowed exactly when the samples have been all green for
  at least \<open>T\<close>.
\<close>

lemma stable_iff:
  assumes "0 < T" "sorted (map stamp ss)"
  shows "isAnalysisAllowed (feed ss (QualityGate_new\<lparr> REQUIRED_GREEN_DURATION := T \<rparr>))
         \<longleftrightarrow> continuously_green_for T ss"
proof -
  let ?g = "QualityGate_new\<lparr> REQUIRED_GREEN_DURATION := T \<rparr>"
  have "gate_tracks T ss (feed ss ?g)"
    by (rule gate_tracks_feed [OF assms(1) _ _ _ assms(2)]) (simp_all add: QualityGate_new_def)
  then show ?thesis
    by (auto simp: gate_tracks_def isAnalysisAllowed_def continuously_green_for_def
        split: list.splits)
qed

lemma reports_nth:
  "n < length ss \<Longrightarrow> reports ss g ! n = isAnalysisAllowed (feed (take (Suc n) ss) g)"
proof (induction ss arbitrary: n g)
  case Nil
  then show ?case by simp
next
  case (Cons s ss)
  then show ?case by (cases n) simp_all
qed

lemma feed_take_Suc:
  "n < length ss \<Longrightarrow> feed (take (Suc n) ss) g = take_sample (ss ! n) (feed (take n ss) g)"
  by (simp add: take_Suc_conv_app_nth feed_snoc)

lemma sorted_take_stamps: "sorted (map stamp ss) \<Longrightarrow> sorted (map stamp (take k ss))"
  using sorted_wrt_take [of "(\<le>)" "map stamp ss" k] by (simp add: take_map)

text \<open>
  Claim C3.  Take any sequence of timed signal updates whose clock readings do
  not decrease, and a gate built with a positive stability threshold \<open>T\<close> (the
  constructor sets 500).  At every sample point the gate reports the stable
  all-green state if and only if the three signals have all been true at every
  sample of a run that ends at this point and began at least \<open>T\<close> milliseconds
  earlier.  A sample with a false signal clears the time stamp, and the next
  all-green sample starts the timer afresh at its own clock reading.  The sequence
  all false, then all true at 0, 400 and 600 milliseconds gives not stable, not
  stable, not stable, stable.
\<close>

theorem C3_stability_hysteresis:
  assumes "0 < T" and "sorted (map stamp ss)" and "n < length ss"
  shows "(reports ss (QualityGate_new\<lparr> REQUIRED_GREEN_DURATION := T \<rparr>) ! n
            \<longleftrightarrow> continuously_green_for T (take (Suc n) ss))
       \<and> (\<not> all_green (signals (ss ! n)) \<longrightarrow>
            allGreenSince (feed (take (Suc n) ss) (QualityGate_new\<lparr> REQUIRED_GREEN_DURATION := T \<rparr>)) = None
            \<and> (Suc n < length ss \<and> all_green (signals (ss ! Suc n)) \<longrightarrow>
                 allGreenSince (feed (take (Suc (Suc n)) ss)
                   (QualityGate_new\<lparr> REQUIRED_GREEN_DURATION := T \<rparr>)) = Some (stamp (ss ! Suc n))))
       \<and> reports scenario QualityGate_new = [False, False, False, True]"
proof (intro conjI impI)
  let ?g = "QualityGate_new\<lparr> REQUIRED_GREEN_DURATION := T \<rparr>"
  have "sorted (map stamp (take (Suc n) ss))" by (rule sorted_take_stamps [OF assms(2)])
  then show "reports ss ?g ! n \<longleftrightarrow> continuously_green_for T (take (Suc n) ss)"
    by (simp only: reports_nth [OF assms(3)] stable_iff [OF assms(1)])
next
  let ?g = "QualityGate_new\<lparr> REQUIRED_GREEN_DURATION := T \<rparr>"
  assume red: "\<not> all_green (signals (ss ! n))"
  show none: "allGreenSince (feed (take (Suc n) ss) ?g) = None"
    using take_sample_not_green [OF red] by (simp only: feed_take_Suc [OF assms(3)])
  assume "Suc n < length ss \<and> all_green (signals (ss ! Suc n))"
  then have lt: "Suc n < length ss" and green: "all_green (signals (ss ! Suc n))" by simp_all
  show "allGreenSince (feed (take (Suc (Suc n)) ss) ?g) = Some (stamp (ss ! Suc n))"
    using take_sample_green_None [OF green none] by (simp only: feed_take_Suc [OF lt])
next
  show "reports scenario QualityGate_new = [False, False, False, True]"
    by (simp add: scenario_def all_signals_def QualityGate_new_def take_sample_def
        updateAllGreenState_def isAnalysisAllowed_def call_onQualityChange_def hideBadges_def)
qed

theorem C3_stability_hysteresis_witness:
  "(0::int) < 500 \<and> sorted (map stamp scenario) \<and> 3 < length scenario
   \<and> reports scenario (QualityGate_new\<lparr> REQUIRED_GREEN_DURATION := 500 \<rparr>) ! 3
   \<and> continuously_green_for 500 (take (Suc 3) scenario)
   \<and> \<not> continuously_green_for 500 (take (Suc 2) scenario)
   \<and> \<not> all_green (signals (scenario ! 0))
   \<and> allGreenSince (feed (take (Suc 0) scenario)
         (QualityGate_new\<lparr> REQUIRED_GREEN_DURATION := 500 \<rparr>)) = None
   \<and> all_green (signals (scenario ! Suc 0))
   \<and> allGreenSince (feed (take (Suc (Suc 0)) scenario)
         (QualityGate_new\<lparr> REQUIRED_GREEN_DURATION := 500 \<rparr>)) = Some 0"
proof -
  have h1: "(0::int) < 500" by simp
  have h2: "sorted (map stamp scenario)" by (simp add: scenario_def)
  have h3: "3 < length scenario" by (simp add: scenario_def)
  have h0: "0 < length scenario" by (simp add: scenario_def)
  have red: "\<not> all_green (signals (scenario ! 0))"
    and green: "Suc 0 < length scenario \<and> all_green (signals (scenario ! Suc 0))"
    and at0: "stamp (scenario ! Suc 0) = 0"
    by (simp_all add: scenario_def all_green_def all_signals_def)
  have "take (Suc 2) scenario = butlast scenario" by (simp add: scenario_def)
  then have "\<not> continuously_green_for 500 (take (Suc 2) scenario)"
    by (simp add: continuously_green_for_def green_run_def scenario_def all_green_def all_signals_def)
  moreover have "continuously_green_for 500 (take (Suc 3) scenario)"
    by (simp add: continuously_green_for_def green_run_def scenario_def all_green_def all_signals_def)
  moreover have "allGreenSince (feed (take (Suc 0) scenario)
         (QualityGate_new\<lparr> REQUIRED_GREEN_DURATION := 500 \<rparr>)) = None
     \<and> allGreenSince (feed (take (Suc (Suc 0)) scenario)
         (QualityGate_new\<lparr> REQUIRED_GREEN_DURATION := 500 \<rparr>)) = Some 0"
    using red green at0 C3_stability_hysteresis [OF h1 h2 h0] by simp
  ultimately show ?thesis
    using h1 h2 h3 red green C3_stability_hysteresis [OF h1 h2 h3] by simp
qed

subsection \<open>Lighting, pose and distance\<close>



















lemma take_sample_keeps_since:
  "state g = ALL_GREEN \<longrightarrow> allGreenSince g \<noteq> None \<Longrightarrow>
   state (take_sample s g) = ALL_GREEN \<longrightarrow> allGreenSince (take_sample s g) \<noteq> None"
  by (auto simp add: take_sample_def updateAllGreenState_def Let_def
      call_onQualityChange_def hideBadges_def showBadges_def createUIOverlay_def
      split: option.splits if_splits)

lemma feed_keeps_since:
  "state g = ALL_GREEN \<longrightarrow> allGreenSince g \<noteq> None \<Longrightarrow>
   state (feed ss g) = ALL_GREEN \<longrightarrow> allGreenSince (feed ss g) \<noteq> None"
proof (induction ss arbitrary: g)
  case Nil
  then show ?case by simp
next
  case (Cons s ss)
  from take_sample_keeps_since [OF Cons.prems]
  show ?case by (simp add: Cons.IH)
qed

text \<open>
  Claim C8.  The pose assessment passes if and only if a landmark set is present
  and not empty.  When the landmarks are missing or empty, the pose and the
  distance assessment both answer false, and a gate that has seen any samples and
  then takes a sample with these two answers does not report the stable all-green
  state, whatever the lighting.
\<close>

theorem C8_checkPose:
  "(checkPose lm \<longleftrightarrow> (\<exists>ps. lm = Some ps \<and> ps \<noteq> []))
   \<and> (lm = None \<or> lm = Some [] \<longrightarrow>
        \<not> checkPose lm \<and> \<not> checkDistance lm
        \<and> \<not> isAnalysisAllowed
            (feed (ss @ [\<lparr> stamp = t,
                            signals = \<lparr> lighting = l, pose = checkPose lm,
                                        distance = checkDistance lm \<rparr> \<rparr>])
               QualityGate_new))"
proof (intro conjI impI)
  show "checkPose lm \<longleftrightarrow> (\<exists>ps. lm = Some ps \<and> ps \<noteq> [])"
    by (cases lm) (simp_all add: checkPose_def)
next
  assume none: "lm = None \<or> lm = Some []"
  then show nopose: "\<not> checkPose lm" by (auto simp: checkPose_def)
  from none show "\<not> checkDistance lm" by (auto simp: checkDistance_def)
  let ?s = "\<lparr> stamp = t, signals = \<lparr> lighting = l, pose = checkPose lm,
                                       distance = checkDistance lm \<rparr> \<rparr>"
  have red: "\<not> all_green (signals ?s)" using nopose by (simp add: all_green_def)
  have "state (feed ss QualityGate_new) = ALL_GREEN \<longrightarrow>
        allGreenSince (feed ss QualityGate_new) \<noteq> None"
    by (rule feed_keeps_since) (simp add: QualityGate_new_def)
  then have "state (take_sample ?s (feed ss QualityGate_new)) \<noteq> ALL_GREEN"
    using take_sample_not_green [OF red, of "feed ss QualityGate_new"] by auto
  then show "\<not> isAnalysisAllowed (feed (ss @ [?s]) QualityGate_new)"
    by (simp only: feed_snoc isAnalysisAllowed_def not_False_eq_True)
qed

theorem C8_checkPose_witness:
  "((None :: landmark list option) = None \<or> (None :: landmark list option) = Some [])
   \<and> \<not> checkPose None \<and> \<not> checkDistance None
   \<and> \<not> isAnalysisAllowed
        (feed (scenario @ [\<lparr> stamp = 700,
                              signals = \<lparr> lighting = True, pose = checkPose None,
                                          distance = checkDistance None \<rparr> \<rparr>])
           QualityGate_new)
   \<and> isAnalysisAllowed (feed scenario QualityGate_new)"
proof -
  have "isAnalysisAllowed (feed scenario QualityGate_new)"
    by (simp add: scenario_def all_signals_def QualityGate_new_def take_sample_def
        updateAllGreenState_def isAnalysisAllowed_def call_onQualityChange_def hideBadges_def)
  with C8_checkPose [of None scenario 700 True] show ?thesis by blast
qed

section \<open>Properties of the analysis client\<close>

lemma js_trim_empty: "js_trim s = [] \<longleftrightarrow> (\<forall>c\<in>set s. is_js_whitespace c)"
proof
  assume "js_trim s = []"
  then have all: "\<forall>c\<in>set (dropWhile is_js_whitespace s). is_js_whitespace c"
    by (simp add: js_trim_def)
  have "dropWhile is_js_whitespace s = []"
  proof (rule ccontr)
    assume ne: "dropWhile is_js_whitespace s \<noteq> []"
    then have "\<not> is_js_whitespace (hd (dropWhile is_js_whitespace s))" by (rule hd_dropWhile)
    moreover have "hd (dropWhile is_js_whitespace s) \<in> set (dropWhile is_js_whitespace s)"
      using ne by simp
    ultimately show False using all by blast
  qed
  then show "\<forall>c\<in>set s. is_js_whitespace c" by simp
next
  assume "\<forall>c\<in>set s. is_js_whitespace c"
  then have e: "dropWhile is_js_whitespace s = []" by simp
  show "js_trim s = []" unfolding js_trim_def e by simp
qed

lemma js_indexOf_absent: "c \<notin> set s \<Longrightarrow> js_indexOf c s = - 1"
  by (induction s) (auto simp: Let_def)

lemma js_indexOf_present:
  "c \<in> set s \<Longrightarrow> js_indexOf c s = int (length (takeWhile (\<lambda>x. x \<noteq> c) s))"
proof (induction s)
  case Nil
  then show ?case by simp
next
  case (Cons x xs)
  show ?case
  proof (cases "x = c")
    case True
    then show ?thesis by simp
  next
    case False
    with Cons.prems have "c \<in> set xs" by simp
    from Cons.IH [OF this] False show ?thesis by (simp add: Let_def)
  qed
qed

lemma drop_past_first: "drop (Suc (length (takeWhile P s))) s = tl (dropWhile P s)"
  by (induction s) simp_all

lemma strip_with_comma:
  "COMMA \<in> set s \<Longrightarrow>
   stripDataUrlPrefix (JSString s) = Some (tl (dropWhile (\<lambda>c. c \<noteq> COMMA) s))"
  by (simp add: stripDataUrlPrefix_def js_indexOf_present Let_def nat_add_distrib drop_past_first)

lemma strip_without_comma:
  "COMMA \<notin> set s \<Longrightarrow> stripDataUrlPrefix (JSString s) = Some s"
  by (simp add: stripDataUrlPrefix_def js_indexOf_absent)

lemma comma_not_whitespace: "\<not> is_js_whitespace COMMA"
  by (simp add: is_js_whitespace_def COMMA_def)

lemma assertString_blocks:
  "(\<forall>s. v \<noteq> JSString s) \<or> (\<exists>s. v = JSString s \<and> (\<forall>c\<in>set s. is_js_whitespace c)) \<Longrightarrow>
   assertString name v = Inl (Error (js (''BLOCKED: missing '' @ name)))"
  by (cases v) (auto simp: assertString_def js_trim_empty)

lemma assertString_passes:
  "\<not> (\<forall>c\<in>set s. is_js_whitespace c) \<Longrightarrow> assertString name (JSString s) = Inr ()"
  by (simp add: assertString_def js_trim_empty)

text \<open>
  Claim C10.  \<open>analyzeYouCamByBase64\<close> throws the error with the message
  "BLOCKED: missing image_base64", having sent no request, whenever its argument
  is not a string or is a string of white space only (the empty string among
  them).  For a string that has a comma, the one request it sends carries what
  follows the first comma; for any other string that is not white space only, it
  carries the string itself.
\<close>

theorem C10_analyzeYouCamByBase64:
  "((\<forall>s. v \<noteq> JSString s) \<or> (\<exists>s. v = JSString s \<and> (\<forall>c\<in>set s. is_js_whitespace c)) \<longrightarrow>
      analyzeYouCamByBase64 parse server v
        = ([], Inl (Error (js ''BLOCKED: missing image_base64''))))
   \<and> (COMMA \<in> set s \<longrightarrow>
        fst (analyzeYouCamByBase64 parse server (JSString s))
          = [\<lparr> url = ''/youcam/analyze'',
               image_base64 = Some (tl (dropWhile (\<lambda>c. c \<noteq> COMMA) s)) \<rparr>]
        \<and> s = takeWhile (\<lambda>c. c \<noteq> COMMA) s @ COMMA # tl (dropWhile (\<lambda>c. c \<noteq> COMMA) s))
   \<and> (COMMA \<notin> set s \<and> \<not> (\<forall>c\<in>set s. is_js_whitespace c) \<longrightarrow>
        fst (analyzeYouCamByBase64 parse server (JSString s))
          = [\<lparr> url = ''/youcam/analyze'', image_base64 = Some s \<rparr>])"
proof (intro conjI impI)
  assume "(\<forall>s. v \<noteq> JSString s) \<or> (\<exists>s. v = JSString s \<and> (\<forall>c\<in>set s. is_js_whitespace c))"
  from assertString_blocks [OF this, of "''image_base64''"]
  show "analyzeYouCamByBase64 parse server v
        = ([], Inl (Error (js ''BLOCKED: missing image_base64'')))"
    by (simp add: analyzeYouCamByBase64_def)
next
  assume comma: "COMMA \<in> set s"
  then have "\<not> (\<forall>c\<in>set s. is_js_whitespace c)" using comma_not_whitespace by blast
  from assertString_passes [OF this, of "''image_base64''"]
  show "fst (analyzeYouCamByBase64 parse server (JSString s))
          = [\<lparr> url = ''/youcam/analyze'',
               image_base64 = Some (tl (dropWhile (\<lambda>c. c \<noteq> COMMA) s)) \<rparr>]"
    by (simp add: analyzeYouCamByBase64_def strip_with_comma [OF comma] Let_def)
  from comma have "dropWhile (\<lambda>c. c \<noteq> COMMA) s \<noteq> []" by simp
  moreover from this have "hd (dropWhile (\<lambda>c. c \<noteq> COMMA) s) = COMMA"
    using hd_dropWhile [of "\<lambda>c. c \<noteq> COMMA" s] by simp
  ultimately have "dropWhile (\<lambda>c. c \<noteq> COMMA) s = COMMA # tl (dropWhile (\<lambda>c. c \<noteq> COMMA) s)"
    by (cases "dropWhile (\<lambda>c. c \<noteq> COMMA) s") simp_all
  then show "s = takeWhile (\<lambda>c. c \<noteq> COMMA) s @ COMMA # tl (dropWhile (\<lambda>c. c \<noteq> COMMA) s)"
    using takeWhile_dropWhile_id [of "\<lambda>c. c \<noteq> COMMA" s] by simp
next
  assume "COMMA \<notin> set s \<and> \<not> (\<forall>c\<in>set s. is_js_whitespace c)"
  then have nc: "COMMA \<notin> set s" and nw: "\<not> (\<forall>c\<in>set s. is_js_whitespace c)" by simp_all
  from assertString_passes [OF nw, of "''image_base64''"]
  show "fst (analyzeYouCamByBase64 parse server (JSString s))
          = [\<lparr> url = ''/youcam/analyze'', image_base64 = Some s \<rparr>]"
    by (simp add: analyzeYouCamByBase64_def strip_without_comma [OF nc] Let_def)
qed

lemma data_url_comma: "COMMA \<in> set data_url"
  by (simp add: data_url_def js_def COMMA_def)

lemma data_url_body: "tl (dropWhile (\<lambda>c. c \<noteq> COMMA) data_url) = js ''QUJD''"
  by (simp add: data_url_def js_def COMMA_def)

theorem C10_analyzeYouCamByBase64_witness:
  "COMMA \<in> set data_url
   \<and> fst (analyzeYouCamByBase64 no_parse no_server (JSString data_url))
       = [\<lparr> url = ''/youcam/analyze'', image_base64 = Some (js ''QUJD'') \<rparr>]
   \<and> analyzeYouCamByBase64 no_parse no_server (JSString (js ''  ''))
       = ([], Inl (Error (js ''BLOCKED: missing image_base64'')))
   \<and> analyzeYouCamByBase64 no_parse no_server JSNull
       = ([], Inl (Error (js ''BLOCKED: missing image_base64'')))
   \<and> fst (analyzeYouCamByBase64 no_parse no_server (JSString (js ''QUJD'')))
       = [\<lparr> url = ''/youcam/analyze'', image_base64 = Some (js ''QUJD'') \<rparr>]"
proof -
  have sp: "\<exists>s. JSString (js ''  '') = JSString s \<and> (\<forall>c\<in>set s. is_js_whitespace c)"
    by (simp add: js_def is_js_whitespace_def)
  have nl: "\<forall>s. JSNull \<noteq> JSString s" by simp
  have plain: "COMMA \<notin> set (js ''QUJD'') \<and> \<not> (\<forall>c\<in>set (js ''QUJD''). is_js_whitespace c)"
    by (simp add: js_def COMMA_def is_js_whitespace_def)
  show ?thesis
    using data_url_comma sp nl plain
      C10_analyzeYouCamByBase64 [of "JSString (js ''  '')" no_parse no_server data_url]
      C10_analyzeYouCamByBase64 [of JSNull no_parse no_server "js ''QUJD''"]
    by (simp only: data_url_body) blast
qed

section \<open>Properties of the application script\<close>

subsection \<open>What the audio functions leave alone\<close>

lemma pause_loop [simp]:
  "pending (pause i a) = pending a" "frameInFlight (pause i a) = frameInFlight a"
  "liveAnalysisActive (pause i a) = liveAnalysisActive a"
  by (simp_all add: pause_def Let_def)

lemma stopCurrentAudio_loop [simp]:
  "pending (stopCurrentAudio a) = pending a"
  "frameInFlight (stopCurrentAudio a) = frameInFlight a"
  "liveAnalysisActive (stopCurrentAudio a) = liveAnalysisActive a"
  by (simp_all add: stopCurrentAudio_def split: option.splits)

lemma playVoice_loop [simp]:
  "pending (playVoice u a) = pending a" "frameInFlight (playVoice u a) = frameInFlight a"
  "liveAnalysisActive (playVoice u a) = liveAnalysisActive a"
  by (simp_all add: playVoice_def Let_def)

lemma playElevenLabsAudio_loop:
  assumes "playElevenLabsAudio r a = Inl b \<or> playElevenLabsAudio r a = Inr b"
  shows "pending b = pending a" "frameInFlight b = frameInFlight a"
    "liveAnalysisActive b = liveAnalysisActive a"
  using assms by (auto simp: playElevenLabsAudio_def split: if_splits audio_ref.splits)

lemma emit_loop [simp]:
  "pending (emit e a) = pending a" "frameInFlight (emit e a) = frameInFlight a"
  "liveAnalysisActive (emit e a) = liveAnalysisActive a" "host (emit e a) = host a"
  "options (emit e a) = options a" "analyzingNow (emit e a) = analyzingNow a"
  by (simp_all add: emit_def)

lemma call_onResult_loop [simp]:
  "pending (call_onResult a) = pending a" "frameInFlight (call_onResult a) = frameInFlight a"
  "liveAnalysisActive (call_onResult a) = liveAnalysisActive a"
  by (simp_all add: call_onResult_def split: option.splits)

lemma deliver_loop [simp]:
  "pending (deliver d a) = pending a" "frameInFlight (deliver d a) = frameInFlight a"
  "liveAnalysisActive (deliver d a) = liveAnalysisActive a"
  by (simp_all add: deliver_def Let_def playElevenLabsAudio_def split: audio_ref.splits)

lemma cleanup_loop [simp]:
  "pending (cleanup a) = pending a" "\<not> frameInFlight (cleanup a)" "\<not> analyzingNow (cleanup a)"
  "liveAnalysisActive (cleanup a) = liveAnalysisActive a"
  by (simp_all add: cleanup_def)

lemma audio_events_loop [simp]:
  "pending (play_started i a) = pending a" "frameInFlight (play_started i a) = frameInFlight a"
  "pending (play_rejected i a) = pending a" "frameInFlight (play_rejected i a) = frameInFlight a"
  "pending (ended i a) = pending a" "frameInFlight (ended i a) = frameInFlight a"
  "pending (media_error i a) = pending a" "frameInFlight (media_error i a) = frameInFlight a"
  by (simp_all add: play_started_def play_rejected_def ended_def media_error_def release_def)

lemma stopLiveAnalysis_loop [simp]:
  "pending (stopLiveAnalysis a) = pending a"
  "frameInFlight (stopLiveAnalysis a) = frameInFlight a"
  by (simp_all add: stopLiveAnalysis_def Let_def emit_def)

subsection \<open>The interval callback\<close>

lemma resume_pending: "resume p s a = (r, b) \<Longrightarrow> pending b = pending a"
  by (cases p; cases s) (auto simp: Let_def split: if_splits)

lemma resume_done:
  "resume p s a = (None, b) \<Longrightarrow> \<not> frameInFlight b \<and> \<not> analyzingNow b"
  by (cases p; cases s) (auto simp: Let_def split: if_splits)

lemma resume_goes_on:
  "resume p s a = (Some q, b) \<Longrightarrow> frameInFlight b = frameInFlight a"
  by (cases p; cases s) (auto simp: Let_def split: if_splits)

lemma step_one_in_flight:
  assumes "one_in_flight a"
  shows "one_in_flight (step e a)"
proof (cases e)
  case Tick
  with assms show ?thesis
    by (auto simp: one_in_flight_def tick_def suspend_def)
next
  case (Settle i s)
  show ?thesis
  proof (cases "i < length (pending a)")
    case False
    with assms Settle show ?thesis by (simp add: settle_def)
  next
    case True
    with assms have i: "i = 0" and p: "pending a = [pending a ! 0]"
      by (auto simp: one_in_flight_def length_Suc_conv le_Suc_eq)
    obtain r b where res: "resume (pending a ! 0) s a = (r, b)" by (cases "resume (pending a ! 0) s a")
    note pb = resume_pending [OF res]
    show ?thesis
    proof (cases r)
      case None
      with res resume_done [of "pending a ! 0" s a b] True i Settle assms show ?thesis
        by (simp add: settle_def one_in_flight_def)
    next
      case (Some q)
      with res resume_goes_on [of "pending a ! 0" s a q b] True i Settle assms p show ?thesis
        by (auto simp: settle_def one_in_flight_def)
    qed
  qed
qed (use assms in \<open>simp_all add: one_in_flight_def\<close>)

lemma run_one_in_flight: "one_in_flight a \<Longrightarrow> one_in_flight (run es a)"
  by (induction es arbitrary: a) (simp_all add: step_one_in_flight)

lemma outstanding_le_pending: "outstanding a \<le> length (pending a)"
  by (simp add: outstanding_def)

lemma started_one_in_flight: "one_in_flight (startLiveAnalysis opts (loaded h))"
  by (simp add: one_in_flight_def startLiveAnalysis_def loaded_def emit_def)

text \<open>
  In the rewritten script, whatever events occur after the loop has been started,
  at most one submission is outstanding, and a tick that finds \<open>frameInFlight\<close>
  set changes nothing: it validates nothing, captures nothing and sends nothing.
\<close>

lemma rewritten_at_most_one:
  "outstanding (run es (startLiveAnalysis opts (loaded h))) \<le> 1"
  "frameInFlight a \<Longrightarrow> step Tick a = a"
proof -
  have "one_in_flight (run es (startLiveAnalysis opts (loaded h)))"
    by (rule run_one_in_flight [OF started_one_in_flight])
  then show "outstanding (run es (startLiveAnalysis opts (loaded h))) \<le> 1"
    using outstanding_le_pending [of "run es (startLiveAnalysis opts (loaded h))"]
    by (simp add: one_in_flight_def)
  show "frameInFlight a \<Longrightarrow> step Tick a = a"
    by (simp add: tick_def suspend_def)
qed

text \<open>
  Claim C1 says that at most one submission is outstanding at any time and that a
  tick which begins while a submission is outstanding is a no-op.  The earlier
  version of the script does not keep to it.  Its interval callback has no
  in-flight test: when a second tick fires before the request of the first has
  been answered, the second tick validates, captures and sends as well, and two
  submissions are outstanding.  On the same events the rewritten script has one.
\<close>

theorem C1_legacy_overlapping_submissions:
  "outstanding (legacy_run overlapping_ticks
      (legacy_startLiveAnalysis default_options (loaded page))) = 2
   \<and> effects (legacy_run overlapping_ticks
      (legacy_startLiveAnalysis default_options (loaded page)))
       = [SetInterval,
          ValidateForAnalysis, HideValidationMessage, DetectFace, CropFaceROI, Fetch 1,
          ValidateForAnalysis, HideValidationMessage, DetectFace, CropFaceROI, Fetch 2]
   \<and> outstanding (run overlapping_ticks
      (startLiveAnalysis default_options (loaded page))) = 1"
  by (simp add: overlapping_ticks_def legacy_startLiveAnalysis_def startLiveAnalysis_def
      loaded_def page_def default_options_def emit_def legacy_tick_def tick_def suspend_def
      settle_def outstanding_def submitted_def Let_def)

text \<open>
  The page of this run has a camera that is ready and a face detection manager,
  so the earlier script does start its loop.
\<close>

theorem C1_legacy_overlapping_submissions_witness:
  "cam page \<and> camReady page \<and> faceDetectionReady page \<and> faceDetectionManager page
   \<and> liveAnalysisActive (legacy_startLiveAnalysis default_options (loaded page))
   \<and> outstanding (legacy_run overlapping_ticks
        (legacy_startLiveAnalysis default_options (loaded page))) = 2"
proof -
  have "cam page \<and> camReady page \<and> faceDetectionReady page \<and> faceDetectionManager page"
    by (simp add: page_def)
  moreover have "liveAnalysisActive (legacy_startLiveAnalysis default_options (loaded page))"
    by (simp add: legacy_startLiveAnalysis_def loaded_def page_def emit_def Let_def)
  ultimately show ?thesis using C1_legacy_overlapping_submissions by blast
qed

subsection \<open>The end of a tick\<close>

lemma settle_alone:
  "pending a = [p] \<Longrightarrow>
   settle resume 0 s a =
     (case resume p s a of
        (Some q, b) \<Rightarrow> b\<lparr> pending := [q] \<rparr>
      | (None, b) \<Rightarrow> b\<lparr> pending := [] \<rparr>)"
  by (simp add: settle_def split: prod.splits option.splits)

text \<open>
  Claim C2.  Take any state of the rewritten loop in which the submission of a
  tick is in flight, and any outcome of that submission: success, a response that
  is not ok (whether or not its body can be read), a network exception, or a body
  that is not JSON.  When the tick has handled the outcome, no invocation is
  suspended and \<open>frameInFlight\<close> and \<open>analyzingNow\<close> are both false.  The same holds
  whenever the callback runs to its end from any of its \<open>await\<close> points.
\<close>

theorem C2_guaranteed_cleanup:
  "(pending a = [AwaitFetch] \<longrightarrow>
      pending (run (map (Settle 0) (settlements oc)) a) = []
      \<and> \<not> frameInFlight (run (map (Settle 0) (settlements oc)) a)
      \<and> \<not> analyzingNow (run (map (Settle 0) (settlements oc)) a))
   \<and> (resume p s a = (None, b) \<longrightarrow> \<not> frameInFlight b \<and> \<not> analyzingNow b)"
proof (intro conjI impI)
  assume p: "pending a = [AwaitFetch]"
  have "pending (run (map (Settle 0) (settlements oc)) a) = []
      \<and> \<not> frameInFlight (run (map (Settle 0) (settlements oc)) a)
      \<and> \<not> analyzingNow (run (map (Settle 0) (settlements oc)) a)"
  proof (cases oc)
    case (Success d)
    have "pending ((emit ReadBody a)\<lparr> pending := [AwaitBody] \<rparr>) = [AwaitBody]" by simp
    from settle_alone [OF this] Success p show ?thesis by (simp add: settle_alone)
  next
    case (HttpFailure readable)
    have "pending ((emit ReadErrorBody a)\<lparr> pending := [AwaitErrorBody] \<rparr>) = [AwaitErrorBody]"
      by simp
    from settle_alone [OF this] HttpFailure p show ?thesis by (simp add: settle_alone)
  next
    case NetworkException
    with p show ?thesis by (simp add: settle_alone)
  next
    case MalformedBody
    have "pending ((emit ReadBody a)\<lparr> pending := [AwaitBody] \<rparr>) = [AwaitBody]" by simp
    from settle_alone [OF this] MalformedBody p show ?thesis by (simp add: settle_alone)
  qed
  then show "pending (run (map (Settle 0) (settlements oc)) a) = []"
    and "\<not> frameInFlight (run (map (Settle 0) (settlements oc)) a)"
    and "\<not> analyzingNow (run (map (Settle 0) (settlements oc)) a)" by simp_all
next
  assume "resume p s a = (None, b)"
  then show "\<not> frameInFlight b" and "\<not> analyzingNow b" using resume_done by blast+
qed


lemma in_flight_pending: "pending in_flight = [AwaitFetch]"
  by (simp add: in_flight_def submit_one_def startLiveAnalysis_def loaded_def page_def
      tick_def suspend_def settle_def emit_def Let_def)

lemma in_flight_flag: "frameInFlight in_flight"
  by (simp add: in_flight_def submit_one_def startLiveAnalysis_def loaded_def page_def
      tick_def suspend_def settle_def emit_def Let_def)

theorem C2_guaranteed_cleanup_witness:
  "pending in_flight = [AwaitFetch] \<and> frameInFlight in_flight
   \<and> pending (run (map (Settle 0) (settlements (HttpFailure True))) in_flight) = []
   \<and> \<not> frameInFlight (run (map (Settle 0) (settlements (HttpFailure True))) in_flight)
   \<and> \<not> analyzingNow (run (map (Settle 0) (settlements (HttpFailure True))) in_flight)
   \<and> resume AwaitFetch Rejected in_flight = (None, cleanup in_flight)
   \<and> \<not> frameInFlight (cleanup in_flight) \<and> \<not> analyzingNow (cleanup in_flight)"
proof -
  have r: "resume AwaitFetch Rejected in_flight = (None, cleanup in_flight)" by simp
  show ?thesis
    using in_flight_pending in_flight_flag r
      C2_guaranteed_cleanup [of in_flight "HttpFailure True" AwaitFetch Rejected "cleanup in_flight"]
    by blast
qed

subsection \<open>Stopping the loop\<close>

lemma effects_playVoice [simp]: "effects (playVoice u a) = effects a"
  by (simp add: playVoice_def stopCurrentAudio_def pause_def Let_def split: option.splits)


lemma others_playVoice [simp]:
  "lastAnalysisResult (playVoice u a) = lastAnalysisResult a"
  "options (playVoice u a) = options a" "host (playVoice u a) = host a"
  by (simp_all add: playVoice_def stopCurrentAudio_def pause_def Let_def split: option.splits)

lemma deliver_result [simp]: "lastAnalysisResult (deliver d a) = Some d"
  by (simp add: deliver_def Let_def playElevenLabsAudio_def call_onResult_def emit_def
      split: audio_ref.splits option.splits)




lemma stop_keeps [simp]:
  "host (stopLiveAnalysis a) = host a" "options (stopLiveAnalysis a) = options a"
  "voiceAllowed (stopLiveAnalysis a) = voiceAllowed a" "audios (stopLiveAnalysis a) = audios a"
  "currentAudio (stopLiveAnalysis a) = currentAudio a"
  by (simp_all add: stopLiveAnalysis_def Let_def emit_def)

lemma cleanup_keeps [simp]:
  "effects (cleanup a) = effects a" "lastAnalysisResult (cleanup a) = lastAnalysisResult a"
  "audios (cleanup a) = audios a"
  by (simp_all add: cleanup_def)






subsection \<open>Audio\<close>

lemma playVoice_blocked:
  "\<not> voiceAllowed a \<Longrightarrow> playVoice u a = a\<lparr> analyzingNow := False \<rparr>"
  by (simp add: playVoice_def)

lemma playVoice_stops_current:
  assumes "voiceAllowed a" and "currentAudio a = Some i" and "i < length (audios a)"
  shows "\<not> is_active (audios (playVoice u a) ! i)"
    and "audios (playVoice u a) ! length (audios a) = \<lparr> src = u, playback = Starting \<rparr>"
    and "currentAudio (playVoice u a) = Some (length (audios a))"
  using assms
  by (auto simp: playVoice_def stopCurrentAudio_def pause_def Let_def is_active_def nth_append
      split: playback.splits)

lemma filter_at_most_one:
  assumes "\<forall>i<length xs. \<forall>j<length xs. P (xs ! i) \<and> P (xs ! j) \<longrightarrow> i = j"
  shows "length (filter P xs) \<le> 1"
  using assms
proof (induction xs)
  case Nil
  then show ?case by simp
next
  case (Cons x xs)
  have tail: "\<forall>i<length xs. \<forall>j<length xs. P (xs ! i) \<and> P (xs ! j) \<longrightarrow> i = j"
  proof (intro allI impI)
    fix i j
    assume "i < length xs" "j < length xs" "P (xs ! i) \<and> P (xs ! j)"
    with Cons.prems have "Suc i = Suc j"
      by (metis Suc_less_eq length_Cons nth_Cons_Suc)
    then show "i = j" by simp
  qed
  show ?case
  proof (cases "P x")
    case False
    with Cons.IH [OF tail] show ?thesis by simp
  next
    case True
    have "filter P xs = []"
    proof (rule ccontr)
      assume "filter P xs \<noteq> []"
      then obtain y where "y \<in> set xs" "P y" by (auto simp: filter_empty_conv)
      then obtain k where k: "k < length xs" "P (xs ! k)" by (auto simp: in_set_conv_nth)
      with True Cons.prems have "0 = Suc k"
        by (metis Suc_less_eq length_Cons nth_Cons_0 nth_Cons_Suc zero_less_Suc)
      then show False by simp
    qed
    with True show ?thesis by simp
  qed
qed

lemma slot_tracks_at_most_one:
  assumes "slot_tracks a"
  shows "active_playbacks a \<le> 1"
  unfolding active_playbacks_def
proof (rule filter_at_most_one, intro allI impI)
  fix i j
  assume i: "i < length (audios a)" and j: "j < length (audios a)"
    and act: "is_active (audios a ! i) \<and> is_active (audios a ! j)"
  from assms i act have "currentAudio a = Some i" unfolding slot_tracks_def by blast
  moreover from assms j act have "currentAudio a = Some j" unfolding slot_tracks_def by blast
  ultimately show "i = j" by simp
qed

lemma pause_audios:
  "length (audios (pause i a)) = length (audios a)"
  "j \<noteq> i \<Longrightarrow> audios (pause i a) ! j = audios a ! j"
  "i < length (audios a) \<Longrightarrow> \<not> is_active (audios (pause i a) ! i)"
  by (simp_all add: pause_def Let_def is_active_def split: playback.splits)

lemma stopCurrentAudio_silences:
  assumes "slot_tracks a" and "j < length (audios a)"
  shows "\<not> is_active (audios (stopCurrentAudio a) ! j)"
proof (cases "currentAudio a")
  case None
  with assms show ?thesis by (auto simp: stopCurrentAudio_def slot_tracks_def)
next
  case (Some i)
  show ?thesis
  proof (cases "j = i")
    case True
    with Some assms(2) show ?thesis by (simp add: stopCurrentAudio_def pause_audios)
  next
    case False
    with assms Some have "\<not> is_active (audios a ! j)" by (auto simp: slot_tracks_def)
    with False Some show ?thesis by (simp add: stopCurrentAudio_def pause_audios)
  qed
qed

lemma stopCurrentAudio_length: "length (audios (stopCurrentAudio a)) = length (audios a)"
  by (simp add: stopCurrentAudio_def pause_audios split: option.splits)

lemma playVoice_keeps_slot:
  assumes "slot_tracks a"
  shows "slot_tracks (playVoice u a)"
proof (cases "voiceAllowed a")
  case False
  with assms show ?thesis by (simp add: playVoice_def slot_tracks_def)
next
  case True
  let ?n = "length (audios a)"
  have au: "audios (playVoice u a) = audios (stopCurrentAudio a) @ [\<lparr> src = u, playback = Starting \<rparr>]"
    and cu: "currentAudio (playVoice u a) = Some ?n"
    using True by (simp_all add: playVoice_def Let_def stopCurrentAudio_length)
  show ?thesis
    unfolding slot_tracks_def
  proof (intro allI impI)
    fix j
    assume j: "j < length (audios (playVoice u a))" and act: "is_active (audios (playVoice u a) ! j)"
    show "currentAudio (playVoice u a) = Some j"
    proof (cases "j < ?n")
      case True
      with act have "is_active (audios (stopCurrentAudio a) ! j)"
        by (simp add: au nth_append stopCurrentAudio_length)
      with stopCurrentAudio_silences [OF assms True] show ?thesis by simp
    next
      case False
      with j have "j = ?n" by (simp add: au stopCurrentAudio_length)
      with cu show ?thesis by simp
    qed
  qed
qed

text \<open>
  So a call of \<open>playVoice\<close> keeps at most one playback active as long as
  \<open>currentAudio\<close> refers to the audio that is active (lemmas
  \<open>playVoice_keeps_slot\<close> and \<open>slot_tracks_at_most_one\<close>), and it starts nothing
  when the flag forbids it (lemma \<open>playVoice_blocked\<close>).
\<close>

text \<open>
  Claim C9 says that at most one audio playback is active.  Each of the three
  handlers that \<open>playVoice\<close> installs on an audio element clears \<open>currentAudio\<close>,
  whichever element \<open>currentAudio\<close> then refers to.  In the run below, the second call
  of \<open>playVoice\<close> pauses the first audio while it is starting; the rejection of the
  first audio's \<open>play()\<close> then clears \<open>currentAudio\<close>, which by then refers to the
  second audio.  The third call finds no current audio, stops nothing, and two
  playbacks are active.
\<close>

theorem C9_overlapping_playbacks:
  "active_playbacks (run three_voices (loaded page)) = 2
   \<and> map playback (audios (run three_voices (loaded page))) = [Paused, Playing, Starting]
   \<and> currentAudio (run (take 3 three_voices) (loaded page)) = None
   \<and> map playback (audios (run (take 3 three_voices) (loaded page))) = [Paused, Starting]"
  by (simp add: three_voices_def loaded_def playVoice_def stopCurrentAudio_def pause_def
      play_rejected_def play_started_def release_def active_playbacks_def is_active_def Let_def)

subsection \<open>The explicit analysis action\<close>








end
